theory Spec2Isabelle
  imports Complex_Main "HOL-Library.AList" "HOL-Library.Sublist" "HOL-Library.Multiset"
begin

section \<open>Python values used by SpendLens\<close>

subsection \<open>Floats\<close>

text \<open>
  \<^verbatim>\<open>Expense.amount\<close> and \<^verbatim>\<open>CategoryTotal.total\<close> are Python floats, that is IEEE-754
  binary64 numbers. A finite float is represented by the rational number it denotes;
  \<open>0.0\<close> and \<open>-0.0\<close>, which Python's \<open>==\<close> and \<open><\<close> do not tell apart, are both
  \<open>Fin 0\<close>. Python's \<open>int\<close> 0 (the start value of \<^verbatim>\<open>sum\<close>) compares equal to
  \<open>0.0\<close> and adds like it, so it is \<open>Fin 0\<close> as well.
\<close>

datatype pyfloat = Fin rat | PInf | NInf | NaN

text \<open>\<^verbatim>\<open>int.bit_length\<close>: the number of binary digits of a positive integer.\<close>

function bit_length :: "int \<Rightarrow> int" where
  "bit_length n = (if n \<le> 0 then 0 else 1 + bit_length (n div 2))"
  by pat_completeness auto
termination
  by (relation "measure nat") auto

declare bit_length.simps [simp del]

definition pow2 :: "int \<Rightarrow> rat" where
  "pow2 e = (if 0 \<le> e then of_int (2 ^ nat e) else 1 / of_int (2 ^ nat (- e)))"

text \<open>The exponent of the leading binary digit of a positive rational: \<open>\<lfloor>log\<^sub>2 q\<rfloor>\<close>.\<close>

definition ilog2 :: "rat \<Rightarrow> int" where
  "ilog2 q = (case quotient_of q of (a, b) \<Rightarrow>
     (let k = bit_length a - bit_length b
      in if pow2 k \<le> q then k else k - 1))"

definition round_half_even :: "rat \<Rightarrow> int" where
  "round_half_even x = (let f = \<lfloor>x\<rfloor>; r = x - of_int f
     in if r < 1 / 2 then f else if 1 / 2 < r then f + 1 else if even f then f else f + 1)"

text \<open>
  Rounding of an exact result to binary64, to nearest with ties to even: 53 significant
  binary digits \<open>m\<close>, the exponent \<open>e\<close> of the last digit from \<open>-1074\<close> (subnormal
  numbers) up, and overflow to infinity when the rounded value \<open>m * 2\<^sup>e\<close> reaches
  \<open>2\<^sup>1\<^sup>0\<^sup>2\<^sup>4\<close>, that is when \<open>m\<close> has more than \<open>1024 - e\<close> binary digits.
\<close>

definition round_double :: "rat \<Rightarrow> pyfloat" where
  "round_double q = (if q = 0 then Fin 0 else
     (let e = max (ilog2 \<bar>q\<bar> - 52) (- 1074);
          m = round_half_even (\<bar>q\<bar> / pow2 e)
      in if 1024 < bit_length m + e then (if 0 < q then PInf else NInf)
         else Fin (if 0 < q then of_int m * pow2 e else - (of_int m * pow2 e))))"

text \<open>A float literal of the source, such as \<^verbatim>\<open>25.50\<close>, is the float nearest to it.\<close>

definition float_literal :: "rat \<Rightarrow> pyfloat" where
  "float_literal q = round_double q"

text \<open>Python's \<open>+\<close> on floats.\<close>

fun fadd :: "pyfloat \<Rightarrow> pyfloat \<Rightarrow> pyfloat" where
  "fadd (Fin a) (Fin b) = round_double (a + b)"
| "fadd NaN y = NaN"
| "fadd x NaN = NaN"
| "fadd PInf NInf = NaN"
| "fadd NInf PInf = NaN"
| "fadd PInf y = PInf"
| "fadd x PInf = PInf"
| "fadd NInf y = NInf"
| "fadd x NInf = NInf"

text \<open>Python's \<open><\<close> on floats: every comparison with \<open>nan\<close> is false.\<close>

fun flt :: "pyfloat \<Rightarrow> pyfloat \<Rightarrow> bool" where
  "flt (Fin a) (Fin b) = (a < b)"
| "flt NaN y = False"
| "flt x NaN = False"
| "flt x NInf = False"
| "flt PInf y = False"
| "flt NInf y = True"
| "flt x PInf = True"

text \<open>Python's \<open><=\<close> on floats.\<close>

fun fle :: "pyfloat \<Rightarrow> pyfloat \<Rightarrow> bool" where
  "fle (Fin a) (Fin b) = (a \<le> b)"
| "fle NaN y = False"
| "fle x NaN = False"
| "fle NInf y = True"
| "fle x PInf = True"
| "fle x NInf = False"
| "fle PInf y = False"

definition is_finite :: "pyfloat \<Rightarrow> bool" where
  "is_finite x = (case x of Fin q \<Rightarrow> True | _ \<Rightarrow> False)"

text \<open>Python's unary \<open>-\<close>, binary \<open>-\<close> and \<^verbatim>\<open>abs\<close> on floats; C's \<^verbatim>\<open>fabs\<close>.\<close>

fun fneg :: "pyfloat \<Rightarrow> pyfloat" where
  "fneg (Fin a) = Fin (- a)"
| "fneg PInf = NInf"
| "fneg NInf = PInf"
| "fneg NaN = NaN"

definition fsub :: "pyfloat \<Rightarrow> pyfloat \<Rightarrow> pyfloat" where
  "fsub x y = fadd x (fneg y)"

fun fabs :: "pyfloat \<Rightarrow> pyfloat" where
  "fabs (Fin a) = Fin \<bar>a\<bar>"
| "fabs PInf = PInf"
| "fabs NInf = PInf"
| "fabs NaN = NaN"

text \<open>
  A total that starts at \<open>0.0\<close> and is updated by \<open>+=\<close> with the items of a list, from
  left to right.
\<close>

definition fsum :: "pyfloat list \<Rightarrow> pyfloat" where
  "fsum xs = foldl fadd (Fin 0) xs"

subsection \<open>The builtin \<^verbatim>\<open>sum\<close>\<close>

text \<open>
  What \<^verbatim>\<open>sum\<close> returns for floats depends on the interpreter. Up to CPython 3.11 it
  adds the items to the start value \<open>0\<close> from left to right. From CPython 3.12 on it adds
  the first item to the start value and then keeps, beside the running sum \<open>f_result\<close>, a
  compensation \<open>c\<close> of the rounding errors (\<^verbatim>\<open>builtin_sum_impl\<close> in \<^verbatim>\<open>bltinmodule.c\<close>,
  after Neumaier), which is added at the end if it is neither zero nor infinite nor
  \<open>nan\<close>.
\<close>

datatype cpython = CPython_3_11 | CPython_3_12

definition neumaier_step :: "pyfloat \<times> pyfloat \<Rightarrow> pyfloat \<Rightarrow> pyfloat \<times> pyfloat" where
  "neumaier_step s x = (case s of (f_result, c) \<Rightarrow>
     (let t = fadd f_result x
      in (t, if fle (fabs x) (fabs f_result)
             then fadd c (fadd (fsub f_result t) x)
             else fadd c (fadd (fsub x t) f_result))))"

definition sum_compensated :: "pyfloat list \<Rightarrow> pyfloat" where
  "sum_compensated xs = (case xs of
       [] \<Rightarrow> Fin 0
     | x # ys \<Rightarrow> (case foldl neumaier_step (fadd (Fin 0) x, Fin 0) ys of (f_result, c) \<Rightarrow>
         if c \<noteq> Fin 0 \<and> is_finite c then fadd f_result c else f_result))"

definition builtin_sum :: "cpython \<Rightarrow> pyfloat list \<Rightarrow> pyfloat" where
  "builtin_sum v xs = (case v of
       CPython_3_11 \<Rightarrow> foldl fadd (Fin 0) xs
     | CPython_3_12 \<Rightarrow> sum_compensated xs)"

subsection \<open>Strings and other cell values\<close>

text \<open>
  Texts are ASCII strings. A \<^verbatim>\<open>category\<close> or \<^verbatim>\<open>notes\<close> field is annotated \<^verbatim>\<open>str\<close>, but
  \<^verbatim>\<open>Expense.from_dict\<close> stores whatever the spreadsheet cell holds: a string or a
  number, an empty cell being the float \<open>nan\<close>.
\<close>

datatype pyval = Str string | Num pyfloat

subsection \<open>Naive datetimes\<close>

datatype datetime =
  DateTime (year: int) (month: int) (day: int) (hour: int) (minute: int) (second: int)
    (microsecond: int)

section \<open>models.py\<close>

datatype Expense =
  Expense (date: datetime) (category: pyval) (amount: pyfloat) (notes': pyval)

datatype CategoryTotal =
  CategoryTotal (ct_category: pyval) (ct_total: pyfloat) (ct_count: nat)

section \<open>ExpenseAnalyzer\<close>

text \<open>
  \<^verbatim>\<open>category_data\<close> is a dict, which keeps its keys in the order of their first
  insertion: an association list, where \<^const>\<open>AList.update\<close> overwrites the value of a
  key in place and appends a new key at the end. The value of a key is the pair of its
  \<^verbatim>\<open>"total"\<close> and its \<^verbatim>\<open>"count"\<close>.
\<close>

type_synonym category_data = "(pyval \<times> pyfloat \<times> nat) list"

text \<open>The body of the loop over the expenses.\<close>

definition tally :: "Expense \<Rightarrow> category_data \<Rightarrow> category_data" where
  "tally e d =
     (let d1 = (if map_of d (category e) = None
                then AList.update (category e) (Fin 0, 0) d else d)
      in case map_of d1 (category e) of
           None \<Rightarrow> d1
         | Some (t, n) \<Rightarrow> AList.update (category e) (fadd t (amount e), n + 1) d1)"

text \<open>
  \<^verbatim>\<open>list.sort(key=..., reverse=...)\<close> with float keys, as CPython does it
  (\<^verbatim>\<open>listobject.c\<close>) for a list of fewer than 64 items, for which
  \<^verbatim>\<open>merge_compute_minrun\<close> is the length of the list. The keys are compared with \<open><\<close>
  only. \<^verbatim>\<open>count_run\<close> finds the longest run at the start of the list that either never
  descends or descends strictly, a run of the second kind is reversed, and
  \<^verbatim>\<open>binarysort\<close> inserts the remaining items one by one, each at the place that a
  bisection of the sorted part gives. With \<^verbatim>\<open>reverse=True\<close> the list is reversed before
  and after. A list of 64 items or more is cut into several runs of this kind, which are
  merged: the result is the same as here when no key is \<open>nan\<close>, the order being then
  determined by the keys and the stability of the sort.
\<close>

text \<open>The number of items after the second that continue the run.\<close>

fun run_length :: "bool \<Rightarrow> pyfloat \<Rightarrow> pyfloat list \<Rightarrow> nat" where
  "run_length descending prev [] = 0"
| "run_length descending prev (k # ks) =
     (if flt k prev = descending then Suc (run_length descending k ks) else 0)"

definition count_run :: "pyfloat list \<Rightarrow> nat \<times> bool" where
  "count_run ks = (case ks of
       [] \<Rightarrow> (0, False)
     | [k] \<Rightarrow> (1, False)
     | k0 # k1 # rest \<Rightarrow>
         (let descending = flt k1 k0 in (2 + run_length descending k1 rest, descending)))"

text \<open>The loop of \<^verbatim>\<open>binarysort\<close> that finds the place of \<open>pivot\<close> among the keys \<open>ks\<close>.\<close>

function bisect :: "pyfloat \<Rightarrow> pyfloat list \<Rightarrow> nat \<Rightarrow> nat \<Rightarrow> nat" where
  "bisect pivot ks l r =
     (if l < r
      then (let p = l + (r - l) div 2
            in if flt pivot (ks ! p) then bisect pivot ks l p else bisect pivot ks (p + 1) r)
      else l)"
  by pat_completeness auto
termination
  by (relation "measure (\<lambda>(pivot, ks, l, r). r - l)") auto

declare bisect.simps [simp del]

fun binarysort :: "('a \<Rightarrow> pyfloat) \<Rightarrow> 'a list \<Rightarrow> 'a list \<Rightarrow> 'a list" where
  "binarysort key sorted_part [] = sorted_part"
| "binarysort key sorted_part (x # xs) =
     (let l = bisect (key x) (map key sorted_part) 0 (length sorted_part)
      in binarysort key (take l sorted_part @ x # drop l sorted_part) xs)"

definition list_sort :: "('a \<Rightarrow> pyfloat) \<Rightarrow> bool \<Rightarrow> 'a list \<Rightarrow> 'a list" where
  "list_sort key reverse xs =
     (let a = (if reverse then rev xs else xs);
          s = (if length a < 2 then a
               else (case count_run (map key a) of (n, descending) \<Rightarrow>
                 binarysort key (if descending then rev (take n a) else take n a) (drop n a)))
      in if reverse then rev s else s)"

definition calculate_category_totals :: "Expense list \<Rightarrow> CategoryTotal list" where
  "calculate_category_totals expenses =
     (let category_data = fold tally expenses [];
          totals = map (\<lambda>(cat, tot, cnt). CategoryTotal cat tot cnt) category_data
      in list_sort ct_total True totals)"

definition get_total_spending :: "cpython \<Rightarrow> Expense list \<Rightarrow> pyfloat" where
  "get_total_spending v expenses = builtin_sum v (map amount expenses)"

text \<open>Notions used to state the properties of the analyzer.\<close>

text \<open>The distinct elements of a list, in the order of their first occurrence.\<close>

definition first_occurrences :: "'a list \<Rightarrow> 'a list" where
  "first_occurrences xs = rev (remdups (rev xs))"

definition amounts_of :: "pyval \<Rightarrow> Expense list \<Rightarrow> pyfloat list" where
  "amounts_of c expenses = map amount (filter (\<lambda>e. category e = c) expenses)"

text \<open>A record with another label.\<close>

definition relabel :: "pyval \<Rightarrow> Expense \<Rightarrow> Expense" where
  "relabel c e = Expense (date e) c (amount e) (notes' e)"

section \<open>Python library functions used by the parser\<close>

subsection \<open>Exceptions\<close>

datatype exn = ValueError | OverflowError | KeyError | AttributeError | OtherError

subsection \<open>String methods\<close>

definition is_digit :: "char \<Rightarrow> bool" where
  "is_digit c = (48 \<le> (of_char c :: nat) \<and> (of_char c :: nat) \<le> 57)"

definition is_upper :: "char \<Rightarrow> bool" where
  "is_upper c = (65 \<le> (of_char c :: nat) \<and> (of_char c :: nat) \<le> 90)"

definition is_lower :: "char \<Rightarrow> bool" where
  "is_lower c = (97 \<le> (of_char c :: nat) \<and> (of_char c :: nat) \<le> 122)"

text \<open>The characters that \<^verbatim>\<open>\w\<close> matches: letters, digits and the underscore.\<close>

definition is_word :: "char \<Rightarrow> bool" where
  "is_word c = (is_digit c \<or> is_upper c \<or> is_lower c \<or> c = CHR ''_'')"

definition lower_char :: "char \<Rightarrow> char" where
  "lower_char c = (if is_upper c then char_of (of_char c + (32::nat)) else c)"

definition upper_char :: "char \<Rightarrow> char" where
  "upper_char c = (if is_lower c then char_of (of_char c - (32::nat)) else c)"

text \<open>\<^verbatim>\<open>s.lower()\<close> and \<^verbatim>\<open>s.upper()\<close>.\<close>

definition lower :: "string \<Rightarrow> string" where
  "lower s = map lower_char s"

definition upper :: "string \<Rightarrow> string" where
  "upper s = map upper_char s"

text \<open>\<^verbatim>\<open>s.replace(c, "")\<close> for a single character \<open>c\<close>.\<close>

definition remove_char :: "char \<Rightarrow> string \<Rightarrow> string" where
  "remove_char c s = filter (\<lambda>x. x \<noteq> c) s"

text \<open>\<^verbatim>\<open>sub in s\<close>: \<open>sub\<close> occurs in \<open>s\<close> as a run of adjacent characters.\<close>

fun contains :: "string \<Rightarrow> string \<Rightarrow> bool" where
  "contains sub [] = (sub = [])"
| "contains sub (c # cs) = (prefix sub (c # cs) \<or> contains sub cs)"

subsection \<open>The regular expression of \<^verbatim>\<open>parse_amount\<close>\<close>

text \<open>
  \<^verbatim>\<open>re.search(r"\b(\d+(?:\.\d{1,2})?)\b", s)\<close> tries the positions of \<open>s\<close> from left to
  right and, at a position, the ways its pattern can match in the order of a backtracking
  matcher with greedy quantifiers: \<^verbatim>\<open>\d+\<close> takes as many digits as there are and gives
  them back one at a time; the optional group is tried with two digits, with one digit, and
  then left out. The first way after which the closing \<^verbatim>\<open>\b\<close> holds is the match, and
  what the function returns is its group 1.

  A position of the string is given by the character before it, if any, and the rest of
  the string from it. \<^verbatim>\<open>\b\<close> holds where exactly one of the two characters around the
  position is a word character.
\<close>

definition at_boundary :: "char option \<Rightarrow> string \<Rightarrow> bool" where
  "at_boundary prev rest =
     ((case prev of None \<Rightarrow> False | Some c \<Rightarrow> is_word c) \<noteq>
      (case rest of [] \<Rightarrow> False | c # cs \<Rightarrow> is_word c))"

text \<open>The ways \<^verbatim>\<open>\d+\<close> matches at the start of \<open>s\<close>: the longest first.\<close>

definition digit_candidates :: "string \<Rightarrow> string list" where
  "digit_candidates s = map (\<lambda>n. take n s) (rev [1 ..< Suc (length (takeWhile is_digit s))])"

text \<open>The ways \<^verbatim>\<open>(?:\.\d{1,2})?\<close> matches at the start of \<open>s\<close>, in the order of trial.\<close>

definition fraction_candidates :: "string \<Rightarrow> string list" where
  "fraction_candidates s =
     (case s of
        c # d1 # r \<Rightarrow>
          if c = CHR ''.'' \<and> is_digit d1
          then (case r of
                  d2 # r2 \<Rightarrow> if is_digit d2 then [[c, d1, d2], [c, d1], []] else [[c, d1], []]
                | [] \<Rightarrow> [[c, d1], []])
          else [[]]
      | _ \<Rightarrow> [[]])"

definition group_candidates :: "string \<Rightarrow> string list" where
  "group_candidates s =
     concat (map (\<lambda>ds. map (\<lambda>f. ds @ f) (fraction_candidates (drop (length ds) s)))
       (digit_candidates s))"

definition match_at :: "char option \<Rightarrow> string \<Rightarrow> string option" where
  "match_at prev s =
     (if at_boundary prev s
      then find (\<lambda>g. at_boundary (Some (last g)) (drop (length g) s)) (group_candidates s)
      else None)"

fun search_from :: "char option \<Rightarrow> string \<Rightarrow> string option" where
  "search_from prev [] = match_at prev []"
| "search_from prev (c # cs) =
     (case match_at prev (c # cs) of Some g \<Rightarrow> Some g | None \<Rightarrow> search_from (Some c) cs)"

definition re_search_amount :: "string \<Rightarrow> string option" where
  "re_search_amount s = search_from None s"

subsection \<open>Conversions to float\<close>

definition digit_value :: "char \<Rightarrow> int" where
  "digit_value c = of_char c - 48"

definition int_of_digits :: "string \<Rightarrow> int" where
  "int_of_digits ds = foldl (\<lambda>n c. 10 * n + digit_value c) 0 ds"

text \<open>
  \<^verbatim>\<open>float(s)\<close> for a string of digits with an optional fraction, which is what group 1 of
  the regular expression is: the float nearest to the decimal number. On such a string
  \<^verbatim>\<open>float\<close> does not raise.
\<close>

definition float_of_decimal :: "string \<Rightarrow> pyfloat" where
  "float_of_decimal s =
     (let ip = takeWhile is_digit s; fp = drop (Suc (length ip)) s
      in round_double (of_int (int_of_digits ip) + of_int (int_of_digits fp) / 10 ^ length fp))"

text \<open>
  What \<^verbatim>\<open>w2n.word_to_num\<close> returns is an \<^verbatim>\<open>int\<close>, or a \<^verbatim>\<open>float\<close> when the phrase has a
  decimal point. \<^verbatim>\<open>float(n)\<close> of an \<^verbatim>\<open>int\<close> is the nearest float, and raises
  \<^verbatim>\<open>OverflowError\<close> where that is not finite.
\<close>

datatype pynum = PyInt int | PyFloat pyfloat

definition float_of_num :: "pynum \<Rightarrow> exn + pyfloat" where
  "float_of_num n =
     (case n of
        PyFloat x \<Rightarrow> Inr x
      | PyInt i \<Rightarrow> (if is_finite (round_double (of_int i)) then Inr (round_double (of_int i))
                    else Inl OverflowError))"

subsection \<open>Datetime arithmetic\<close>

definition is_leap :: "int \<Rightarrow> bool" where
  "is_leap y = (y mod 4 = 0 \<and> (y mod 100 \<noteq> 0 \<or> y mod 400 = 0))"

definition days_in_month :: "int \<Rightarrow> int \<Rightarrow> int" where
  "days_in_month y m =
     (if m = 2 then (if is_leap y then 29 else 28)
      else if m = 4 \<or> m = 6 \<or> m = 9 \<or> m = 11 then 30 else 31)"

definition days_before_year :: "int \<Rightarrow> int" where
  "days_before_year y = (y - 1) * 365 + (y - 1) div 4 - (y - 1) div 100 + (y - 1) div 400"

definition days_before_month :: "int \<Rightarrow> int \<Rightarrow> int" where
  "days_before_month y m = sum_list (map (days_in_month y) [1 .. m - 1])"

text \<open>\<^verbatim>\<open>date.toordinal()\<close>: the number of the day, 0001-01-01 being day 1.\<close>

definition toordinal :: "datetime \<Rightarrow> int" where
  "toordinal t = days_before_year (year t) + days_before_month (year t) (month t) + day t"

text \<open>
  \<^verbatim>\<open>date.fromordinal(n)\<close>: the year, the month and the day of day \<open>n\<close>, by the cycles
  of 400, 100 and 4 years; the month is estimated from the day of the year and corrected.
\<close>

definition fromordinal :: "int \<Rightarrow> int \<times> int \<times> int" where
  "fromordinal n =
     (let n0 = n - 1;
          n400 = n0 div 146097; r400 = n0 mod 146097;
          n100 = r400 div 36524; r100 = r400 mod 36524;
          n4 = r100 div 1461; r4 = r100 mod 1461;
          n1 = r4 div 365; r1 = r4 mod 365;
          y = n400 * 400 + n100 * 100 + n4 * 4 + n1 + 1
      in if n1 = 4 \<or> n100 = 4 then (y - 1, 12, 31)
         else (let m = (r1 + 50) div 32;
                   preceding = days_before_month y m
               in if r1 < preceding
                  then (y, m - 1, r1 - (preceding - days_in_month y (m - 1)) + 1)
                  else (y, m, r1 - preceding + 1)))"

text \<open>
  \<^verbatim>\<open>t + timedelta(days=k)\<close>: the time of day stays, the day moves; the result must lie
  in the years 1 to 9999, or \<^verbatim>\<open>OverflowError\<close> is raised.
\<close>

definition plus_days :: "datetime \<Rightarrow> int \<Rightarrow> exn + datetime" where
  "plus_days t k =
     (let n = toordinal t + k
      in if 1 \<le> n \<and> n \<le> 3652059
         then (case fromordinal n of (y, m, d) \<Rightarrow>
                 Inr (DateTime y m d (hour t) (minute t) (second t) (microsecond t)))
         else Inl OverflowError)"

section \<open>ExpenseParser\<close>

text \<open>
  \<^verbatim>\<open>w2n.word_to_num\<close> and \<^verbatim>\<open>dateparser.parse\<close> are functions of third-party libraries:
  the parser is modelled for any behaviour of theirs, as arguments. A call of either
  returns a value or raises.
\<close>

type_synonym word_to_num = "string \<Rightarrow> exn + pynum"

text \<open>
  \<^verbatim>\<open>text.replace(",", "").replace("$", "").lower()\<close>, and the body of the \<^verbatim>\<open>try\<close>
  block of \<^verbatim>\<open>parse_amount\<close>.
\<close>

definition clean :: "string \<Rightarrow> string" where
  "clean text = lower (remove_char (CHR ''$'') (remove_char (CHR '','') text))"

definition parse_amount_try :: "word_to_num \<Rightarrow> string \<Rightarrow> exn + pyfloat" where
  "parse_amount_try word_to_num text =
     (let text_clean = clean text
      in case re_search_amount text_clean of
           Some group1 \<Rightarrow> Inr (float_of_decimal group1)
         | None \<Rightarrow>
             (case word_to_num text_clean of
                Inl e \<Rightarrow> Inl e
              | Inr n \<Rightarrow> float_of_num n))"

definition parse_amount :: "word_to_num \<Rightarrow> string \<Rightarrow> pyfloat" where
  "parse_amount word_to_num text =
     (if text = [] then Fin 0
      else case parse_amount_try word_to_num text of
             Inr v \<Rightarrow> v
           | Inl e \<Rightarrow> Fin 0)"

datatype prefer_dates = Past | Future

record settings =
  PREFER_DATES_FROM :: "prefer_dates option"
  RELATIVE_BASE :: datetime

text \<open>\<^verbatim>\<open>dateparser.parse(text, settings=...)\<close> returns a datetime or \<^verbatim>\<open>None\<close>, or raises.\<close>

type_synonym dateparser = "string \<Rightarrow> settings \<Rightarrow> exn + datetime option"

text \<open>
  The body of the \<^verbatim>\<open>try\<close> block of \<^verbatim>\<open>parse_date\<close>: \<open>Inr (Some d)\<close> where it returns \<open>d\<close>,
  \<open>Inr None\<close> where it runs to its end, \<open>Inl e\<close> where it raises.
\<close>

definition parse_date_try :: "dateparser \<Rightarrow> datetime \<Rightarrow> string \<Rightarrow> exn + datetime option" where
  "parse_date_try dateparser_parse today text =
     (let text_lower = lower text
      in if contains ''yesterday'' text_lower then
           (case plus_days today (- 1) of Inl e \<Rightarrow> Inl e | Inr result \<Rightarrow> Inr (Some result))
         else if contains ''tomorrow'' text_lower then
           (case plus_days today 1 of Inl e \<Rightarrow> Inl e | Inr result \<Rightarrow> Inr (Some result))
         else
           (case (if contains ''last'' text_lower \<or> contains ''ago'' text_lower then
                    dateparser_parse text
                      \<lparr>PREFER_DATES_FROM = Some Past, RELATIVE_BASE = today\<rparr>
                  else if contains ''next'' text_lower then
                    dateparser_parse text
                      \<lparr>PREFER_DATES_FROM = Some Future, RELATIVE_BASE = today\<rparr>
                  else Inr None) of
              Inl e \<Rightarrow> Inl e
            | Inr (Some parsed) \<Rightarrow> Inr (Some parsed)
            | Inr None \<Rightarrow>
                dateparser_parse text \<lparr>PREFER_DATES_FROM = None, RELATIVE_BASE = today\<rparr>))"

text \<open>\<open>now\<close> is what \<^verbatim>\<open>datetime.now()\<close> returns during the call.\<close>

definition parse_date :: "dateparser \<Rightarrow> datetime \<Rightarrow> string \<Rightarrow> datetime" where
  "parse_date dateparser_parse now text =
     (if text = [] then now
      else case parse_date_try dateparser_parse now text of
             Inr (Some result) \<Rightarrow> result
           | Inr None \<Rightarrow> now
           | Inl e \<Rightarrow> now)"

section \<open>Dates as text\<close>

definition digit_char :: "int \<Rightarrow> char" where
  "digit_char n = char_of (48 + n mod 10)"

text \<open>The decimal digits of a number that is not negative.\<close>

function decimal :: "int \<Rightarrow> string" where
  "decimal n = (if n < 10 then [digit_char n] else decimal (n div 10) @ [digit_char (n mod 10)])"
  by pat_completeness auto
termination
  by (relation "measure nat") auto

declare decimal.simps [simp del]

definition zero_pad :: "nat \<Rightarrow> string \<Rightarrow> string" where
  "zero_pad w s = replicate (w - length s) (CHR ''0'') @ s"

text \<open>
  \<^verbatim>\<open>t.strftime("%Y-%m-%d")\<close>. The year is written with four digits; for the years before
  1000 some platforms write fewer.
\<close>

definition strftime_ymd :: "datetime \<Rightarrow> string" where
  "strftime_ymd t =
     zero_pad 4 (decimal (year t)) @ ''-'' @ zero_pad 2 (decimal (month t)) @ ''-'' @
     zero_pad 2 (decimal (day t))"

text \<open>
  \<^verbatim>\<open>datetime.strptime(s, "%Y-%m-%d")\<close> matches \<open>s\<close> from its start against
  \<^verbatim>\<open>(\d\d\d\d)-(1[0-2]|0[1-9]|[1-9])-(3[01]|[12]\d|0[1-9]|[1-9]| [1-9])\<close>, the alternatives
  of a group in this order, and raises \<^verbatim>\<open>ValueError\<close> when there is no match, when text
  remains after the match, or when the day does not exist. A candidate is the number read
  and the text after it.
\<close>

definition month_candidates :: "string \<Rightarrow> (int \<times> string) list" where
  "month_candidates s =
     (case s of
        [] \<Rightarrow> []
      | a # r \<Rightarrow>
          (case r of
             b # r' \<Rightarrow>
               (if a = CHR ''1'' \<and> is_digit b \<and> digit_value b \<le> 2
                then [(10 + digit_value b, r')] else []) @
               (if a = CHR ''0'' \<and> is_digit b \<and> 1 \<le> digit_value b
                then [(digit_value b, r')] else [])
           | [] \<Rightarrow> []) @
          (if is_digit a \<and> 1 \<le> digit_value a then [(digit_value a, r)] else []))"

definition day_candidates :: "string \<Rightarrow> (int \<times> string) list" where
  "day_candidates s =
     (case s of
        [] \<Rightarrow> []
      | a # r \<Rightarrow>
          (case r of
             b # r' \<Rightarrow>
               (if a = CHR ''3'' \<and> is_digit b \<and> digit_value b \<le> 1
                then [(30 + digit_value b, r')] else []) @
               (if (a = CHR ''1'' \<or> a = CHR ''2'') \<and> is_digit b
                then [(10 * digit_value a + digit_value b, r')] else []) @
               (if a = CHR ''0'' \<and> is_digit b \<and> 1 \<le> digit_value b
                then [(digit_value b, r')] else [])
           | [] \<Rightarrow> []) @
          (if is_digit a \<and> 1 \<le> digit_value a then [(digit_value a, r)] else []) @
          (case r of
             b # r' \<Rightarrow>
               (if a = CHR '' '' \<and> is_digit b \<and> 1 \<le> digit_value b
                then [(digit_value b, r')] else [])
           | [] \<Rightarrow> []))"

text \<open>The first result of \<open>f\<close> on the elements of a list, in their order.\<close>

fun first_some :: "('a \<Rightarrow> 'b option) \<Rightarrow> 'a list \<Rightarrow> 'b option" where
  "first_some f [] = None"
| "first_some f (x # xs) = (case f x of Some y \<Rightarrow> Some y | None \<Rightarrow> first_some f xs)"

definition match_ymd :: "string \<Rightarrow> (int \<times> int \<times> int \<times> string) option" where
  "match_ymd s =
     (case s of
        y1 # y2 # y3 # y4 # r \<Rightarrow>
          if is_digit y1 \<and> is_digit y2 \<and> is_digit y3 \<and> is_digit y4
          then first_some
                 (\<lambda>(m, r1).
                    case r1 of
                      [] \<Rightarrow> None
                    | c # r2 \<Rightarrow>
                        if c = CHR ''-''
                        then (case day_candidates r2 of
                                [] \<Rightarrow> None
                              | (d, r3) # ds \<Rightarrow> Some (int_of_digits [y1, y2, y3, y4], m, d, r3))
                        else None)
                 (case r of [] \<Rightarrow> [] | c # r0 \<Rightarrow> if c = CHR ''-'' then month_candidates r0 else [])
          else None
      | _ \<Rightarrow> None)"

definition strptime_ymd :: "string \<Rightarrow> exn + datetime" where
  "strptime_ymd s =
     (case match_ymd s of
        None \<Rightarrow> Inl ValueError
      | Some (y, m, d, rest) \<Rightarrow>
          if rest \<noteq> [] then Inl ValueError
          else if y < 1 \<or> days_in_month y m < d then Inl ValueError
          else Inr (DateTime y m d 0 0 0 0))"

section \<open>Expense.to_dict and Expense.from_dict\<close>

text \<open>A dict with string keys, its items in the order of insertion.\<close>

type_synonym pydict = "(string \<times> pyval) list"

definition to_dict :: "Expense \<Rightarrow> pydict" where
  "to_dict e =
     [(''Date/Time'', Str (strftime_ymd (date e))),
      (''Category'', category e),
      (''Amount ($)'', Num (amount e)),
      (''Notes'', notes' e)]"

text \<open>
  \<^verbatim>\<open>float(x)\<close> of a cell: a number is its own value; for a string it is Python's parser of
  float texts, an argument of the model.
\<close>

definition float_of_cell :: "(string \<Rightarrow> exn + pyfloat) \<Rightarrow> pyval \<Rightarrow> exn + pyfloat" where
  "float_of_cell float_str v = (case v of Num x \<Rightarrow> Inr x | Str s \<Rightarrow> float_str s)"

text \<open>
  \<open>data\<close> is a dict or a row of a DataFrame; \<open>data k\<close> is \<open>None\<close> where it has no key \<open>k\<close>,
  so that \<^verbatim>\<open>data.get(k, default)\<close> is the default.
\<close>

definition get_default :: "(string \<Rightarrow> pyval option) \<Rightarrow> string \<Rightarrow> pyval \<Rightarrow> pyval" where
  "get_default data k dflt = (case data k of None \<Rightarrow> dflt | Some v \<Rightarrow> v)"

definition from_dict ::
  "(string \<Rightarrow> exn + pyfloat) \<Rightarrow> datetime \<Rightarrow> (string \<Rightarrow> pyval option) \<Rightarrow> exn + Expense" where
  "from_dict float_str now data =
     (case (case get_default data ''Date/Time'' (Str []) of
              Str date_str \<Rightarrow> strptime_ymd date_str
            | Num x \<Rightarrow> Inr now) of
        Inl e \<Rightarrow> Inl e
      | Inr d \<Rightarrow>
          (case float_of_cell float_str (get_default data ''Amount ($)'' (Num (Fin 0))) of
             Inl e \<Rightarrow> Inl e
           | Inr a \<Rightarrow>
               Inr (Expense d (get_default data ''Category'' (Str ''Uncategorized'')) a
                      (get_default data ''Notes'' (Str [])))))"

section \<open>ExcelStorage\<close>

text \<open>
  A DataFrame has named columns and rows; a row is a dict, which reads as \<open>nan\<close> under a
  column it has no entry for. \<^verbatim>\<open>pd.DataFrame(data)\<close> of a list of dicts has their keys as
  columns.
\<close>

record dataframe =
  columns :: "string list"
  rows :: "pydict list"

definition DataFrame :: "pydict list \<Rightarrow> dataframe" where
  "DataFrame data = \<lparr>columns = first_occurrences (concat (map (map fst) data)), rows = data\<rparr>"

definition cell :: "pydict \<Rightarrow> string \<Rightarrow> pyval" where
  "cell r k = (case map_of r k of None \<Rightarrow> Num NaN | Some v \<Rightarrow> v)"

text \<open>A row as \<^verbatim>\<open>df.iterrows()\<close> gives it: it has the columns of the frame as keys.\<close>

definition series :: "string list \<Rightarrow> pydict \<Rightarrow> string \<Rightarrow> pyval option" where
  "series cols r k = (if k \<in> set cols then Some (cell r k) else None)"

text \<open>
  A file is taken as what \<^verbatim>\<open>pd.read_excel\<close> does on it: it raises, or returns a
  DataFrame. A file system maps the paths that exist to their files. What
  \<^verbatim>\<open>df.to_excel\<close> writes for a DataFrame, or that it raises, is an argument of the model.
\<close>

datatype xlsx_file = Unreadable | Workbook dataframe

type_synonym filesystem = "string \<Rightarrow> xlsx_file option"

type_synonym to_excel = "dataframe \<Rightarrow> exn + xlsx_file"

definition read_excel :: "xlsx_file \<Rightarrow> exn + dataframe" where
  "read_excel f = (case f of Unreadable \<Rightarrow> Inl OtherError | Workbook df \<Rightarrow> Inr df)"

definition is_str :: "pyval \<Rightarrow> bool" where
  "is_str v = (case v of Str s \<Rightarrow> True | Num x \<Rightarrow> False)"

text \<open>
  The \<^verbatim>\<open>.str\<close> accessor of a column raises \<^verbatim>\<open>AttributeError\<close> unless the column holds
  strings: a column that has rows and only numbers or empty cells is a numeric column.
\<close>

definition str_accessor_ok :: "pyval list \<Rightarrow> bool" where
  "str_accessor_ok col = (col = [] \<or> list_ex is_str col)"

text \<open>
  The filter \<^verbatim>\<open>(df["Category"].notna()) & (df["Category"].str.upper() != "TOTAL")\<close>:
  \<^verbatim>\<open>.str.upper()\<close> of a cell that is not a string is \<open>nan\<close>, which differs from
  \<^verbatim>\<open>"TOTAL"\<close>.
\<close>

definition keep_row :: "pydict \<Rightarrow> bool" where
  "keep_row r =
     (cell r ''Category'' \<noteq> Num NaN \<and>
      (case cell r ''Category'' of Str s \<Rightarrow> upper s \<noteq> ''TOTAL'' | Num x \<Rightarrow> True))"

text \<open>A list comprehension whose items may raise: the first exception ends it.\<close>

fun collect :: "(exn + 'a) list \<Rightarrow> exn + 'a list" where
  "collect [] = Inr []"
| "collect (x # xs) =
     (case x of
        Inl e \<Rightarrow> Inl e
      | Inr v \<Rightarrow> (case collect xs of Inl e \<Rightarrow> Inl e | Inr vs \<Rightarrow> Inr (v # vs)))"

text \<open>The body of the \<^verbatim>\<open>try\<close> block of \<^verbatim>\<open>load_expenses\<close>.\<close>

definition load_try ::
  "(string \<Rightarrow> exn + pyfloat) \<Rightarrow> datetime \<Rightarrow> xlsx_file \<Rightarrow> exn + Expense list" where
  "load_try float_str now f =
     (case read_excel f of
        Inl e \<Rightarrow> Inl e
      | Inr df \<Rightarrow>
          if ''Category'' \<notin> set (columns df) then Inl KeyError
          else if \<not> str_accessor_ok (map (\<lambda>r. cell r ''Category'') (rows df))
          then Inl AttributeError
          else collect (map (\<lambda>r. from_dict float_str now (series (columns df) r))
                         (filter keep_row (rows df))))"

definition load_expenses ::
  "(string \<Rightarrow> exn + pyfloat) \<Rightarrow> datetime \<Rightarrow> string \<Rightarrow> filesystem \<Rightarrow> Expense list" where
  "load_expenses float_str now file_path fs =
     (case fs file_path of
        None \<Rightarrow> []
      | Some f \<Rightarrow>
          (case load_try float_str now f of
             Inl e \<Rightarrow> []
           | Inr expenses \<Rightarrow> expenses))"

text \<open>\<^verbatim>\<open>save_expenses\<close> logs an exception and raises it again.\<close>

definition save_expenses ::
  "to_excel \<Rightarrow> string \<Rightarrow> Expense list \<Rightarrow> filesystem \<Rightarrow> exn + filesystem" where
  "save_expenses to_excel file_path expenses fs =
     (let data = map to_dict expenses; df = DataFrame data
      in case to_excel df of
           Inl e \<Rightarrow> Inl e
         | Inr f \<Rightarrow> Inr (fs(file_path \<mapsto> f)))"

definition add_expense ::
  "to_excel \<Rightarrow> (string \<Rightarrow> exn + pyfloat) \<Rightarrow> datetime \<Rightarrow> string \<Rightarrow> Expense \<Rightarrow> filesystem \<Rightarrow>
   exn + filesystem" where
  "add_expense to_excel float_str now file_path expense fs =
     save_expenses to_excel file_path (load_expenses float_str now file_path fs @ [expense]) fs"

definition clear_all :: "to_excel \<Rightarrow> string \<Rightarrow> filesystem \<Rightarrow> exn + filesystem" where
  "clear_all to_excel file_path fs = save_expenses to_excel file_path [] fs"

section \<open>ExcelFormatter and ExpenseController\<close>

text \<open>
  \<^verbatim>\<open>format_workbook\<close> opens the workbook, which raises on a file that is not one, sets
  styles, widths and a chart, and saves it: the values of the cells stay.
\<close>

definition format_workbook :: "string \<Rightarrow> filesystem \<Rightarrow> exn + filesystem" where
  "format_workbook file_path fs =
     (case fs file_path of
        None \<Rightarrow> Inl OtherError
      | Some Unreadable \<Rightarrow> Inl OtherError
      | Some (Workbook df) \<Rightarrow> Inr fs)"

text \<open>The list of records that \<^verbatim>\<open>export_to_excel\<close> saves.\<close>

definition export_records ::
  "cpython \<Rightarrow> (string \<Rightarrow> exn + pyfloat) \<Rightarrow> datetime \<Rightarrow> string \<Rightarrow> filesystem \<Rightarrow>
   Expense list" where
  "export_records v float_str now storage_path fs =
     (let expenses = load_expenses float_str now storage_path fs;
          total = get_total_spending v expenses;
          total_expense = Expense now (Str ''TOTAL'') total (Str [])
      in expenses @ [total_expense])"

definition export_to_excel ::
  "cpython \<Rightarrow> to_excel \<Rightarrow> (string \<Rightarrow> exn + pyfloat) \<Rightarrow> datetime \<Rightarrow> string \<Rightarrow> string \<Rightarrow>
   filesystem \<Rightarrow> exn + filesystem" where
  "export_to_excel v to_excel float_str now storage_path file_path fs =
     (case save_expenses to_excel file_path (export_records v float_str now storage_path fs) fs of
        Inl e \<Rightarrow> Inl e
      | Inr fs' \<Rightarrow> format_workbook file_path fs')"

section \<open>Example inputs\<close>

text \<open>The records of the fixture of the tests of the analyzer.\<close>

definition sample_expenses :: "Expense list" where
  "sample_expenses =
    [Expense (DateTime 2025 10 10 0 0 0 0) (Str ''Food'') (float_literal (2550 / 100))
       (Str ''Lunch at Chipotle''),
     Expense (DateTime 2025 10 11 0 0 0 0) (Str ''Gas'') (float_literal (4500 / 100))
       (Str ''Shell station''),
     Expense (DateTime 2025 10 12 0 0 0 0) (Str ''Food'') (float_literal (1575 / 100))
       (Str ''Starbucks coffee''),
     Expense (DateTime 2025 10 13 0 0 0 0) (Str ''Entertainment'') (float_literal (5000 / 100))
       (Str ''Movie tickets'')]"

text \<open>Two categories with the same total.\<close>

definition tie_expenses :: "Expense list" where
  "tie_expenses =
    [Expense (DateTime 2025 10 10 0 0 0 0) (Str ''Gas'') (float_literal 10) (Str ''fuel''),
     Expense (DateTime 2025 10 11 0 0 0 0) (Str ''Food'') (float_literal 20) (Str ''dinner''),
     Expense (DateTime 2025 10 12 0 0 0 0) (Str ''Rent'') (float_literal 4) (Str ''garage''),
     Expense (DateTime 2025 10 13 0 0 0 0) (Str ''Rent'') (float_literal 6) (Str ''locker'')]"

text \<open>Amounts whose sums are rounded: 0.1, 0.1 and 0.4.\<close>

definition rounded_expenses :: "Expense list" where
  "rounded_expenses =
    [Expense (DateTime 2025 10 10 0 0 0 0) (Str ''Food'') (float_literal (1 / 10)) (Str ''gum''),
     Expense (DateTime 2025 10 11 0 0 0 0) (Str ''Gas'') (float_literal (1 / 10)) (Str ''air''),
     Expense (DateTime 2025 10 12 0 0 0 0) (Str ''Food'') (float_literal (4 / 10)) (Str ''mint'')]"

text \<open>
  A workbook in which the \<^verbatim>\<open>Amount ($)\<close> cell of the second row is empty, the file
  system that has it under every path, and a \<^verbatim>\<open>float\<close> that takes no text for a number.
\<close>

definition blank_amount_workbook :: xlsx_file where
  "blank_amount_workbook = Workbook
     \<lparr>columns = [''Date/Time'', ''Category'', ''Amount ($)'', ''Notes''],
      rows =
        [[(''Date/Time'', Str ''2025-10-10''), (''Category'', Str ''A''),
          (''Amount ($)'', Num (float_literal 1)), (''Notes'', Str ''a'')],
         [(''Date/Time'', Str ''2025-10-11''), (''Category'', Str ''B''),
          (''Notes'', Str ''b'')],
         [(''Date/Time'', Str ''2025-10-12''), (''Category'', Str ''C''),
          (''Amount ($)'', Num (float_literal 2)), (''Notes'', Str ''c'')]]\<rparr>"

definition blank_amount_files :: filesystem where
  "blank_amount_files file_path = Some blank_amount_workbook"

definition no_float_texts :: "string \<Rightarrow> exn + pyfloat" where
  "no_float_texts s = Inl ValueError"

text \<open>A list with a record labelled \<^verbatim>\<open>TOTAL\<close>, as in the test of the filter of the storage.\<close>

definition labelled_expenses :: "Expense list" where
  "labelled_expenses =
    [Expense (DateTime 2025 10 14 0 0 0 0) (Str ''Food'') (float_literal 10) (Str ''Test''),
     Expense (DateTime 2025 10 14 0 0 0 0) (Str ''TOTAL'') (float_literal 10) (Str [])]"

text \<open>A clock reading, and resolvers to run the parser with.\<close>

definition now0 :: datetime where
  "now0 = DateTime 2025 10 14 13 45 30 0"

text \<open>A resolver that raises on every call.\<close>

definition raising_parser :: dateparser where
  "raising_parser text st = Inl OtherError"

text \<open>A resolver that finds a date only when it is called with no preference.\<close>

definition unbiased_only :: dateparser where
  "unbiased_only text st =
     (if PREFER_DATES_FROM st = None then Inr (Some (DateTime 2025 10 7 0 0 0 0)) else Inr None)"

section \<open>What the regular expression matches\<close>

text \<open>
  The strings that \<^verbatim>\<open>\d+(?:\.\d{1,2})?\<close> matches: digits, at least one, and then nothing
  or a point and one or two digits.
\<close>

definition is_amount_token :: "string \<Rightarrow> bool" where
  "is_amount_token g =
     (\<exists>ds fd. ds \<noteq> [] \<and> list_all is_digit ds \<and> list_all is_digit fd \<and>
        (g = ds \<or> (g = ds @ CHR ''.'' # fd \<and> (length fd = 1 \<or> length fd = 2))))"

text \<open>The character before position \<open>i\<close> of a string, if any.\<close>

definition prev_char :: "string \<Rightarrow> nat \<Rightarrow> char option" where
  "prev_char s i = (if i = 0 then None else Some (s ! (i - 1)))"

text \<open>
  The pattern \<^verbatim>\<open>\b(\d+(?:\.\d{1,2})?)\b\<close> matches \<open>s\<close> at position \<open>i\<close> with group \<open>g\<close>:
  \<open>g\<close> stands there, and \<^verbatim>\<open>\b\<close> holds before and after it.
\<close>

definition matches_at :: "string \<Rightarrow> nat \<Rightarrow> string \<Rightarrow> bool" where
  "matches_at s i g =
     (i \<le> length s \<and> is_amount_token g \<and> prefix g (drop i s) \<and>
      at_boundary (prev_char s i) (drop i s) \<and>
      at_boundary (Some (last g)) (drop (i + length g) s))"

text \<open>
  \<open>g\<close> is the first match in \<open>s\<close>: the match at the leftmost position that has one, and
  the longest match at this position.
\<close>

definition first_match :: "string \<Rightarrow> string \<Rightarrow> bool" where
  "first_match s g =
     (\<exists>i. matches_at s i g \<and>
          (\<forall>j g'. matches_at s j g' \<longrightarrow> i \<le> j) \<and>
          (\<forall>g'. matches_at s i g' \<longrightarrow> length g' \<le> length g))"

text \<open>
  A \<^verbatim>\<open>word_to_num\<close> that recognizes nothing, and one that recognizes the word
  \<^verbatim>\<open>twenty\<close>.
\<close>

definition no_words :: word_to_num where
  "no_words s = Inl ValueError"

definition twenty_words :: word_to_num where
  "twenty_words s = (if contains ''twenty'' s then Inr (PyInt 20) else Inl ValueError)"

section \<open>Properties of the analyzer\<close>

subsection \<open>Floats\<close>

lemma flt_irrefl [simp]: "\<not> flt a a"
  by (cases a) auto

lemma fle_iff_not_flt: "a \<noteq> NaN \<Longrightarrow> b \<noteq> NaN \<Longrightarrow> fle b a = (\<not> flt a b)"
  by (cases a; cases b) auto

lemma flt_imp_fle: "flt a b \<Longrightarrow> fle a b"
  by (cases a; cases b) auto

lemma fle_trans: "fle a b \<Longrightarrow> fle b c \<Longrightarrow> fle a c"
  by (cases a; cases b; cases c) auto

lemma round_double_not_NaN [simp]: "round_double q \<noteq> NaN"
  by (simp add: round_double_def Let_def)

lemma fadd_finite_not_NaN: "a \<noteq> NaN \<Longrightarrow> is_finite b \<Longrightarrow> fadd a b \<noteq> NaN"
  by (cases a; cases b) (auto simp: is_finite_def)

lemma foldl_fadd_not_NaN:
  "a \<noteq> NaN \<Longrightarrow> list_all is_finite xs \<Longrightarrow> foldl fadd a xs \<noteq> NaN"
  by (induction xs arbitrary: a) (auto simp: fadd_finite_not_NaN)

lemma fsum_not_NaN: "list_all is_finite xs \<Longrightarrow> fsum xs \<noteq> NaN"
  by (simp add: fsum_def foldl_fadd_not_NaN)

lemma fsum_snoc: "fsum (xs @ [x]) = fadd (fsum xs) x"
  by (simp add: fsum_def)

subsection \<open>The dict of the categories\<close>

lemma first_occurrences_snoc:
  "first_occurrences (xs @ [x]) =
     (if x \<in> set xs then first_occurrences xs else first_occurrences xs @ [x])"
  by (simp add: first_occurrences_def)

lemma set_first_occurrences [simp]: "set (first_occurrences xs) = set xs"
  by (simp add: first_occurrences_def)

lemma distinct_first_occurrences [simp]: "distinct (first_occurrences xs)"
  by (simp add: first_occurrences_def)

lemma first_occurrences_Nil [simp]: "first_occurrences [] = []"
  by (simp add: first_occurrences_def)

lemma update_map_present:
  "distinct ks \<Longrightarrow> c \<in> set ks \<Longrightarrow>
   AList.update c v (map (\<lambda>k. (k, g k)) ks) = map (\<lambda>k. (k, if k = c then v else g k)) ks"
  by (induction ks) (auto simp: AList.update.simps)

lemma update_map_absent:
  "c \<notin> set ks \<Longrightarrow>
   AList.update c v (map (\<lambda>k. (k, g k)) ks) = map (\<lambda>k. (k, g k)) ks @ [(c, v)]"
  by (induction ks) (auto simp: AList.update.simps)

lemma update_append_absent:
  "c \<notin> fst ` set xs \<Longrightarrow> AList.update c v (xs @ ys) = xs @ AList.update c v ys"
  by (induction xs) (auto simp: AList.update.simps)

lemma map_of_map_key:
  "map_of (map (\<lambda>k. (k, g k)) ks) c = (if c \<in> set ks then Some (g c) else None)"
  by (induction ks) auto

text \<open>What the dict holds for a category after the loop: the sum and the number of its amounts.\<close>

lemma summary_snoc:
  "(fsum (amounts_of c (es @ [e])), length (amounts_of c (es @ [e]))) =
     (if category e = c
      then (fadd (fsum (amounts_of c es)) (amount e), Suc (length (amounts_of c es)))
      else (fsum (amounts_of c es), length (amounts_of c es)))"
  by (simp add: amounts_of_def fsum_snoc)

lemma fold_tally:
  "fold tally es [] =
     map (\<lambda>c. (c, fsum (amounts_of c es), length (amounts_of c es)))
       (first_occurrences (map category es))"
proof (induction es rule: rev_induct)
  case Nil
  show ?case by simp
next
  case (snoc e es)
  let ?ks = "first_occurrences (map category es)"
  let ?c = "category e"
  let ?g = "\<lambda>es k. (fsum (amounts_of k es), length (amounts_of k es))"
  have d: "fold tally es [] = map (\<lambda>k. (k, ?g es k)) ?ks"
    by (rule snoc.IH)
  show ?case
  proof (cases "?c \<in> set (map category es)")
    case True
    then have in_ks: "?c \<in> set ?ks" by simp
    have "tally e (fold tally es []) =
          AList.update ?c (fadd (fsum (amounts_of ?c es)) (amount e), Suc (length (amounts_of ?c es)))
            (map (\<lambda>k. (k, ?g es k)) ?ks)"
      using in_ks by (simp add: tally_def d map_of_map_key)
    also have "\<dots> = map (\<lambda>k. (k, ?g (es @ [e]) k)) ?ks"
      using in_ks by (simp add: update_map_present summary_snoc cong: map_cong)
    finally show ?thesis
      using True by (simp add: first_occurrences_snoc)
  next
    case False
    then have not_ks: "?c \<notin> set ?ks" by simp
    have "filter (\<lambda>x. category x = ?c) es = []"
      using False unfolding filter_empty_conv by (metis image_eqI set_map)
    then have s0: "?g es ?c = (Fin 0, 0)"
      by (simp add: amounts_of_def fsum_def)
    have "tally e (fold tally es []) =
          map (\<lambda>k. (k, ?g es k)) ?ks @ [(?c, fadd (Fin 0) (amount e), Suc 0)]"
      using not_ks by (simp add: tally_def d map_of_map_key update_map_absent AList.update.simps
          map_of_append Let_def map_add_def update_append_absent image_image)
    also have "\<dots> = map (\<lambda>k. (k, ?g (es @ [e]) k)) (?ks @ [?c])"
      using not_ks s0 by (auto simp: summary_snoc)
    finally show ?thesis
      using False by (simp add: first_occurrences_snoc)
  qed
qed

subsection \<open>The sort\<close>

lemma flt_fle_trans: "flt a b \<Longrightarrow> fle b c \<Longrightarrow> flt a c"
  by (cases a; cases b; cases c) auto

lemma flt_trans: "flt a b \<Longrightarrow> flt b c \<Longrightarrow> flt a c"
  by (cases a; cases b; cases c) auto

lemma flt_neq: "flt a b \<Longrightarrow> a \<noteq> b"
  by (cases a; cases b) auto

text \<open>The sort permutes the list.\<close>

lemma mset_binarysort: "mset (binarysort key pre xs) = mset pre + mset xs"
proof (induction xs arbitrary: pre)
  case Nil
  show ?case by simp
next
  case (Cons x xs)
  have "mset (take l pre @ x # drop l pre) = mset pre + {#x#}" for l
  proof -
    have "mset (take l pre) + mset (drop l pre) = mset pre"
      by (metis append_take_drop_id mset_append)
    then show ?thesis by simp
  qed
  then show ?case
    by (simp add: Cons.IH Let_def)
qed

lemma mset_list_sort: "mset (list_sort key reverse xs) = mset xs"
proof -
  have run: "mset (binarysort key (if d then rev (take n a) else take n a) (drop n a)) = mset a"
    for d n and a :: "'a list"
  proof -
    have "mset (take n a) + mset (drop n a) = mset a"
      by (metis append_take_drop_id mset_append)
    then show ?thesis
      by (simp add: mset_binarysort)
  qed
  show ?thesis
    by (simp add: list_sort_def Let_def run split: prod.split)
qed

lemma set_list_sort [simp]: "set (list_sort key reverse xs) = set xs"
  by (rule mset_eq_setD) (rule mset_list_sort)

lemma distinct_map_list_sort [simp]:
  "distinct (map f (list_sort key reverse xs)) = distinct (map f xs)"
proof -
  have "mset (map f (list_sort key reverse xs)) = mset (map f xs)"
    by (simp add: mset_list_sort)
  then show ?thesis
    by (rule mset_eq_imp_distinct_iff)
qed

lemma sum_list_map_list_sort:
  fixes h :: "'a \<Rightarrow> 'b::comm_monoid_add"
  shows "sum_list (map h (list_sort key reverse xs)) = sum_list (map h xs)"
proof -
  have "mset (map h (list_sort key reverse xs)) = mset (map h xs)"
    by (simp add: mset_list_sort)
  then show ?thesis
    by (metis sum_mset_sum_list)
qed

text \<open>The run that \<^verbatim>\<open>count_run\<close> finds.\<close>

lemma run_ascending:
  "\<forall>k\<in>set (prev # ks). k \<noteq> NaN \<Longrightarrow>
   sorted_wrt fle (prev # take (run_length False prev ks) ks)"
proof (induction ks arbitrary: prev)
  case Nil
  show ?case by simp
next
  case (Cons k ks)
  show ?case
  proof (cases "flt k prev")
    case True
    then show ?thesis by simp
  next
    case False
    then have pk: "fle prev k"
      using Cons.prems by (simp add: fle_iff_not_flt)
    have s: "sorted_wrt fle (k # take (run_length False k ks) ks)"
      using Cons.prems by (intro Cons.IH) simp
    then have "\<forall>x\<in>set (take (run_length False k ks) ks). fle prev x"
      using pk by (auto intro: fle_trans)
    with s pk False show ?thesis by simp
  qed
qed

lemma run_descending:
  "sorted_wrt (\<lambda>a b. flt b a) (prev # take (run_length True prev ks) ks)"
proof (induction ks arbitrary: prev)
  case Nil
  show ?case by simp
next
  case (Cons k ks)
  show ?case
  proof (cases "flt k prev")
    case False
    then show ?thesis by simp
  next
    case True
    have s: "sorted_wrt (\<lambda>a b. flt b a) (k # take (run_length True k ks) ks)"
      by (rule Cons.IH)
    then have "\<forall>x\<in>set (take (run_length True k ks) ks). flt x prev"
      using True by (auto intro: flt_trans)
    with s True show ?thesis by simp
  qed
qed

lemma count_run_cases:
  assumes "count_run ks = (n, d)" and "\<forall>k\<in>set ks. k \<noteq> NaN"
  shows "if d then sorted_wrt (\<lambda>a b. flt b a) (take n ks) else sorted_wrt fle (take n ks)"
proof (cases ks)
  case Nil
  then show ?thesis by simp
next
  case (Cons k0 ks1)
  show ?thesis
  proof (cases ks1)
    case Nil
    with Cons assms show ?thesis by (auto simp: count_run_def)
  next
    case (Cons k1 rest)
    note ks = \<open>ks = k0 # ks1\<close> Cons
    from assms(1) have d: "d = flt k1 k0" and n: "n = 2 + run_length d k1 rest"
      by (auto simp: count_run_def ks Let_def)
    have t: "take n ks = k0 # k1 # take (run_length d k1 rest) rest"
      by (simp add: n ks)
    show ?thesis
    proof (cases d)
      case True
      have "sorted_wrt (\<lambda>a b. flt b a) (k1 # take (run_length True k1 rest) rest)"
        by (rule run_descending)
      moreover from this have "\<forall>x\<in>set (take (run_length True k1 rest) rest). flt x k0"
        using True d by (auto intro: flt_trans)
      ultimately show ?thesis
        using True d by (simp add: t)
    next
      case False
      have k: "\<forall>k\<in>set (k1 # rest). k \<noteq> NaN" "k0 \<noteq> NaN"
        using assms(2) by (simp_all add: ks)
      have s: "sorted_wrt fle (k1 # take (run_length False k1 rest) rest)"
        using k(1) by (rule run_ascending)
      have k01: "fle k0 k1"
        using False d k by (simp add: fle_iff_not_flt)
      with s have "\<forall>x\<in>set (take (run_length False k1 rest) rest). fle k0 x"
        by (auto intro: fle_trans)
      with s k01 show ?thesis
        using False by (simp add: t)
    qed
  qed
qed

text \<open>The place that the bisection finds in a sorted list.\<close>

lemma bisect_place:
  "sorted_wrt fle ks \<Longrightarrow> l \<le> r \<Longrightarrow> r \<le> length ks \<Longrightarrow>
    (\<forall>i<l. \<not> flt pivot (ks ! i)) \<Longrightarrow>
    (\<forall>i. r \<le> i \<and> i < length ks \<longrightarrow> flt pivot (ks ! i)) \<Longrightarrow>
    bisect pivot ks l r \<le> length ks \<and>
    (\<forall>i<bisect pivot ks l r. \<not> flt pivot (ks ! i)) \<and>
    (\<forall>i. bisect pivot ks l r \<le> i \<and> i < length ks \<longrightarrow> flt pivot (ks ! i))"
proof (induction pivot ks l r rule: bisect.induct)
  case (1 pivot ks l r)
  note sorted = "1.prems"(1) and lr = "1.prems"(2) and rn = "1.prems"(3)
    and low = "1.prems"(4) and up = "1.prems"(5)
  have le: "fle (ks ! i) (ks ! j)" if "i < j" "j < length ks" for i j
    using sorted that by (simp add: sorted_wrt_nth_less)
  show ?case
  proof (cases "l < r")
    case False
    with lr have "l = r" by simp
    moreover have "bisect pivot ks l r = l"
      using False by (subst bisect.simps) simp
    ultimately show ?thesis
      using rn low up by simp
  next
    case True
    define p where "p = l + (r - l) div 2"
    have p1: "l \<le> p" by (simp add: p_def)
    have p2: "p < r" using True unfolding p_def by linarith
    show ?thesis
    proof (cases "flt pivot (ks ! p)")
      case lt: True
      have b: "bisect pivot ks l r = bisect pivot ks l p"
        using True lt by (subst bisect.simps) (simp add: p_def Let_def)
      have up': "\<forall>i. p \<le> i \<and> i < length ks \<longrightarrow> flt pivot (ks ! i)"
      proof (intro allI impI)
        fix i assume i: "p \<le> i \<and> i < length ks"
        show "flt pivot (ks ! i)"
        proof (cases "i = p")
          case True
          with lt show ?thesis by simp
        next
          case False
          with i have "p < i" "i < length ks" by simp_all
          then have "fle (ks ! p) (ks ! i)" by (rule le)
          with lt show ?thesis by (rule flt_fle_trans)
        qed
      qed
      have pn: "p \<le> length ks" using p2 rn by simp
      have "bisect pivot ks l p \<le> length ks \<and>
        (\<forall>i<bisect pivot ks l p. \<not> flt pivot (ks ! i)) \<and>
        (\<forall>i. bisect pivot ks l p \<le> i \<and> i < length ks \<longrightarrow> flt pivot (ks ! i))"
        by (rule "1.IH"(1)[OF True p_def lt sorted p1 pn low up'])
      then show ?thesis unfolding b .
    next
      case ge: False
      have b: "bisect pivot ks l r = bisect pivot ks (p + 1) r"
        using True ge by (subst bisect.simps) (simp add: p_def Let_def)
      have low': "\<forall>i<p + 1. \<not> flt pivot (ks ! i)"
      proof (intro allI impI)
        fix i assume i: "i < p + 1"
        show "\<not> flt pivot (ks ! i)"
        proof (cases "i = p")
          case True
          with ge show ?thesis by simp
        next
          case False
          with i have "i < p" by simp
          moreover have "p < length ks" using p2 rn by simp
          ultimately have "fle (ks ! i) (ks ! p)" by (rule le)
          with ge show ?thesis by (blast intro: flt_fle_trans)
        qed
      qed
      have pr: "p + 1 \<le> r" using p2 by simp
      have "bisect pivot ks (p + 1) r \<le> length ks \<and>
        (\<forall>i<bisect pivot ks (p + 1) r. \<not> flt pivot (ks ! i)) \<and>
        (\<forall>i. bisect pivot ks (p + 1) r \<le> i \<and> i < length ks \<longrightarrow> flt pivot (ks ! i))"
        by (rule "1.IH"(2)[OF True p_def ge sorted pr rn low' up])
      then show ?thesis unfolding b .
    qed
  qed
qed

text \<open>An item that is inserted at the place found keeps the list sorted and stands behind the items of its key.\<close>

lemma insert_at_place:
  fixes key :: "'a \<Rightarrow> pyfloat"
  assumes s: "sorted_wrt (\<lambda>a b. fle (key a) (key b)) pre"
    and n: "\<forall>y\<in>set pre. key y \<noteq> NaN" "key x \<noteq> NaN"
  defines "l \<equiv> bisect (key x) (map key pre) 0 (length pre)"
  shows "sorted_wrt (\<lambda>a b. fle (key a) (key b)) (take l pre @ x # drop l pre)"
    and "filter (\<lambda>y. key y = t) (take l pre @ x # drop l pre) = filter (\<lambda>y. key y = t) (pre @ [x])"
proof -
  have sk: "sorted_wrt fle (map key pre)"
    using s by (simp add: sorted_wrt_map)
  have "bisect (key x) (map key pre) 0 (length pre) \<le> length (map key pre) \<and>
    (\<forall>i<bisect (key x) (map key pre) 0 (length pre). \<not> flt (key x) (map key pre ! i)) \<and>
    (\<forall>i. bisect (key x) (map key pre) 0 (length pre) \<le> i \<and> i < length (map key pre) \<longrightarrow>
       flt (key x) (map key pre ! i))"
    by (rule bisect_place[OF sk]) auto
  then have ll: "l \<le> length pre"
    and low: "\<forall>i<l. \<not> flt (key x) (key (pre ! i))"
    and up: "\<forall>i. l \<le> i \<and> i < length pre \<longrightarrow> flt (key x) (key (pre ! i))"
    unfolding l_def by auto
  have before: "fle (key y) (key x)" if "y \<in> set (take l pre)" for y
  proof -
    from that obtain i where i: "i < l" "i < length pre" "y = pre ! i"
      by (auto simp: in_set_conv_nth)
    then have "\<not> flt (key x) (key y)" using low by simp
    moreover have "key y \<noteq> NaN" using n(1) i by simp
    ultimately show ?thesis using n(2) by (simp add: fle_iff_not_flt)
  qed
  have after: "flt (key x) (key y)" if "y \<in> set (drop l pre)" for y
  proof -
    from that obtain i where i: "i < length pre - l" "y = drop l pre ! i"
      by (auto simp: in_set_conv_nth)
    then have "y = pre ! (l + i)" using ll by simp
    moreover have "l \<le> l + i \<and> l + i < length pre" using i by simp
    ultimately show ?thesis using up by blast
  qed
  have parts: "sorted_wrt (\<lambda>a b. fle (key a) (key b)) (take l pre @ drop l pre)"
    using s by simp
  then have st: "sorted_wrt (\<lambda>a b. fle (key a) (key b)) (take l pre)"
    and sd: "sorted_wrt (\<lambda>a b. fle (key a) (key b)) (drop l pre)"
    and td: "\<forall>a\<in>set (take l pre). \<forall>b\<in>set (drop l pre). fle (key a) (key b)"
    unfolding sorted_wrt_append by auto
  show "sorted_wrt (\<lambda>a b. fle (key a) (key b)) (take l pre @ x # drop l pre)"
    unfolding sorted_wrt_append sorted_wrt.simps
    using st sd td before after by (auto intro: flt_imp_fle)
  have "filter (\<lambda>y. key y = t) (drop l pre) = []" if "key x = t"
    unfolding filter_empty_conv using after that flt_neq by blast
  moreover have "filter (\<lambda>y. key y = t) pre =
    filter (\<lambda>y. key y = t) (take l pre) @ filter (\<lambda>y. key y = t) (drop l pre)"
    by (metis append_take_drop_id filter_append)
  ultimately show "filter (\<lambda>y. key y = t) (take l pre @ x # drop l pre) =
    filter (\<lambda>y. key y = t) (pre @ [x])"
    by simp
qed

lemma binarysort_sorted:
  fixes key :: "'a \<Rightarrow> pyfloat"
  shows "sorted_wrt (\<lambda>a b. fle (key a) (key b)) pre \<Longrightarrow>
    \<forall>y\<in>set (pre @ xs). key y \<noteq> NaN \<Longrightarrow>
    sorted_wrt (\<lambda>a b. fle (key a) (key b)) (binarysort key pre xs) \<and>
    filter (\<lambda>y. key y = t) (binarysort key pre xs) = filter (\<lambda>y. key y = t) (pre @ xs)"
proof (induction xs arbitrary: pre)
  case Nil
  then show ?case by simp
next
  case (Cons x xs)
  define l where "l = bisect (key x) (map key pre) 0 (length pre)"
  let ?pre = "take l pre @ x # drop l pre"
  have n: "\<forall>y\<in>set pre. key y \<noteq> NaN" "key x \<noteq> NaN"
    using Cons.prems(2) by simp_all
  have s: "sorted_wrt (\<lambda>a b. fle (key a) (key b)) ?pre"
    unfolding l_def by (rule insert_at_place(1)[OF Cons.prems(1) n])
  have f: "filter (\<lambda>y. key y = t) ?pre = filter (\<lambda>y. key y = t) (pre @ [x])"
    unfolding l_def by (rule insert_at_place(2)[OF Cons.prems(1) n])
  have n': "\<forall>y\<in>set (?pre @ xs). key y \<noteq> NaN"
    using Cons.prems(2) by (auto dest: in_set_takeD in_set_dropD)
  have "sorted_wrt (\<lambda>a b. fle (key a) (key b)) (binarysort key ?pre xs) \<and>
    filter (\<lambda>y. key y = t) (binarysort key ?pre xs) = filter (\<lambda>y. key y = t) (?pre @ xs)"
    by (rule Cons.IH[OF s n'])
  moreover have "binarysort key pre (x # xs) = binarysort key ?pre xs"
    by (simp add: l_def Let_def)
  moreover have "filter (\<lambda>y. key y = t) (?pre @ xs) = filter (\<lambda>y. key y = t) (pre @ x # xs)"
  proof -
    have "filter (\<lambda>y. key y = t) (?pre @ xs) =
          filter (\<lambda>y. key y = t) ?pre @ filter (\<lambda>y. key y = t) xs"
      by (rule filter_append)
    also have "\<dots> = filter (\<lambda>y. key y = t) (pre @ [x]) @ filter (\<lambda>y. key y = t) xs"
      by (simp only: f)
    also have "\<dots> = filter (\<lambda>y. key y = t) (pre @ x # xs)"
      by simp
    finally show ?thesis .
  qed
  ultimately show ?case by simp
qed

text \<open>In a list that descends strictly no two items have the same key.\<close>

lemma filter_rev_descending:
  fixes key :: "'a \<Rightarrow> pyfloat"
  shows "sorted_wrt (\<lambda>a b. flt (key b) (key a)) xs \<Longrightarrow>
    filter (\<lambda>y. key y = t) (rev xs) = filter (\<lambda>y. key y = t) xs"
proof (induction xs)
  case Nil
  show ?case by simp
next
  case (Cons x xs)
  then have IH: "filter (\<lambda>y. key y = t) (rev xs) = filter (\<lambda>y. key y = t) xs"
    by simp
  show ?case
  proof (cases "key x = t")
    case True
    have "\<forall>y\<in>set xs. key y \<noteq> t"
      using Cons.prems True flt_neq by auto
    then have "filter (\<lambda>y. key y = t) xs = []"
      by (simp add: filter_empty_conv)
    with True IH show ?thesis by simp
  next
    case False
    with IH show ?thesis by simp
  qed
qed

text \<open>
  When no key is \<open>nan\<close>, the sort with \<^verbatim>\<open>reverse=True\<close> gives a list that never
  ascends, and it is stable: the items of one key keep their order.
\<close>

lemma list_sort_reverse_sorted:
  fixes key :: "'a \<Rightarrow> pyfloat"
  assumes nn: "\<forall>y\<in>set xs. key y \<noteq> NaN"
  shows "sorted_wrt (\<lambda>a b. fle (key b) (key a)) (list_sort key True xs)"
    and "filter (\<lambda>y. key y = t) (list_sort key True xs) = filter (\<lambda>y. key y = t) xs"
proof -
  define a where "a = rev xs"
  define s where "s = (if length a < 2 then a
               else (case count_run (map key a) of (n, descending) \<Rightarrow>
                 binarysort key (if descending then rev (take n a) else take n a) (drop n a)))"
  have r: "list_sort key True xs = rev s"
    unfolding list_sort_def s_def a_def Let_def by simp
  have na: "\<forall>y\<in>set a. key y \<noteq> NaN"
    using nn by (simp add: a_def)
  have "sorted_wrt (\<lambda>a b. fle (key a) (key b)) s \<and>
        filter (\<lambda>y. key y = t) s = filter (\<lambda>y. key y = t) a"
  proof (cases "length a < 2")
    case True
    then have "sorted_wrt (\<lambda>a b. fle (key a) (key b)) a"
      by (cases a rule: list.exhaust[case_names Nil Cons]) (auto simp: length_Suc_conv)
    with True show ?thesis by (simp add: s_def)
  next
    case False
    obtain n d where c: "count_run (map key a) = (n, d)"
      by (cases "count_run (map key a)")
    define run where "run = (if d then rev (take n a) else take n a)"
    have s: "s = binarysort key run (drop n a)"
      using False by (simp add: s_def c run_def)
    have nk: "\<forall>k\<in>set (map key a). k \<noteq> NaN"
      using na by simp
    have tm: "take n (map key a) = map key (take n a)"
      by (simp add: take_map)
    note cc = count_run_cases[OF c nk, unfolded tm sorted_wrt_map]
    have rs: "sorted_wrt (\<lambda>a b. fle (key a) (key b)) run"
      and rf: "filter (\<lambda>y. key y = t) run = filter (\<lambda>y. key y = t) (take n a)"
    proof -
      show "sorted_wrt (\<lambda>a b. fle (key a) (key b)) run"
      proof (cases d)
        case True
        with cc have "sorted_wrt (\<lambda>a b. flt (key b) (key a)) (take n a)"
          by simp
        then have "sorted_wrt (\<lambda>a b. flt (key a) (key b)) (rev (take n a))"
          by (simp add: sorted_wrt_rev)
        then have "sorted_wrt (\<lambda>a b. fle (key a) (key b)) (rev (take n a))"
          by (rule sorted_wrt_mono_rel[rotated]) (simp add: flt_imp_fle)
        with True show ?thesis by (simp add: run_def)
      next
        case False
        with cc have "sorted_wrt (\<lambda>a b. fle (key a) (key b)) (take n a)"
          by simp
        with False show ?thesis by (simp add: run_def)
      qed
      show "filter (\<lambda>y. key y = t) run = filter (\<lambda>y. key y = t) (take n a)"
      proof (cases d)
        case True
        with cc have "sorted_wrt (\<lambda>a b. flt (key b) (key a)) (take n a)"
          by simp
        then have "filter (\<lambda>y. key y = t) (rev (take n a)) = filter (\<lambda>y. key y = t) (take n a)"
          by (rule filter_rev_descending)
        with True show ?thesis by (simp add: run_def)
      next
        case False
        then show ?thesis by (simp add: run_def)
      qed
    qed
    have nr: "\<forall>y\<in>set (run @ drop n a). key y \<noteq> NaN"
      using na by (auto simp: run_def dest: in_set_takeD in_set_dropD)
    have "sorted_wrt (\<lambda>a b. fle (key a) (key b)) (binarysort key run (drop n a)) \<and>
      filter (\<lambda>y. key y = t) (binarysort key run (drop n a)) =
        filter (\<lambda>y. key y = t) (run @ drop n a)"
      by (rule binarysort_sorted[OF rs nr])
    moreover have "filter (\<lambda>y. key y = t) (run @ drop n a) = filter (\<lambda>y. key y = t) a"
    proof -
      have "filter (\<lambda>y. key y = t) (run @ drop n a) =
            filter (\<lambda>y. key y = t) (take n a @ drop n a)"
        by (simp add: rf del: append_take_drop_id)
      then show ?thesis by simp
    qed
    ultimately show ?thesis by (simp add: s)
  qed
  then have ss: "sorted_wrt (\<lambda>a b. fle (key a) (key b)) s"
    and sf: "filter (\<lambda>y. key y = t) s = filter (\<lambda>y. key y = t) a"
    by simp_all
  show "sorted_wrt (\<lambda>a b. fle (key b) (key a)) (list_sort key True xs)"
    using ss by (simp add: r sorted_wrt_rev)
  have "filter (\<lambda>y. key y = t) (rev s) = rev (filter (\<lambda>y. key y = t) s)"
    by (simp add: rev_filter)
  also have "\<dots> = rev (filter (\<lambda>y. key y = t) (rev xs))"
    by (simp add: sf a_def)
  also have "\<dots> = filter (\<lambda>y. key y = t) xs"
    by (simp add: rev_filter)
  finally show "filter (\<lambda>y. key y = t) (list_sort key True xs) = filter (\<lambda>y. key y = t) xs"
    by (simp add: r)
qed

subsection \<open>The totals\<close>

lemma calculate_category_totals_eq:
  "calculate_category_totals es =
     list_sort ct_total True
       (map (\<lambda>c. CategoryTotal c (fsum (amounts_of c es)) (length (amounts_of c es)))
         (first_occurrences (map category es)))"
  by (simp add: calculate_category_totals_def fold_tally Let_def comp_def)

lemma indicator_sum_distinct:
  fixes v :: "'b::comm_monoid_add"
  shows "distinct ks \<Longrightarrow> x \<in> set ks \<Longrightarrow> (\<Sum>c\<leftarrow>ks. if x = c then v else 0) = v"
proof (induction ks)
  case Nil
  then show ?case by simp
next
  case (Cons k ks)
  show ?case
  proof (cases "x = k")
    case True
    then have "x \<notin> set ks" using Cons.prems(1) by simp
    then have "(\<Sum>c\<leftarrow>ks. if x = c then v else 0) = (\<Sum>c\<leftarrow>ks. 0)"
      by (intro arg_cong[where f = sum_list] map_cong) auto
    with True show ?thesis by simp
  next
    case False
    with Cons show ?thesis by auto
  qed
qed

lemma sum_by_key:
  fixes h :: "'a \<Rightarrow> 'b::comm_monoid_add"
  shows "distinct ks \<Longrightarrow> f ` set es \<subseteq> set ks \<Longrightarrow>
   (\<Sum>c\<leftarrow>ks. \<Sum>e\<leftarrow>filter (\<lambda>e. f e = c) es. h e) = (\<Sum>e\<leftarrow>es. h e)"
proof (induction es)
  case Nil
  then show ?case by simp
next
  case (Cons e es)
  have one: "(\<Sum>c\<leftarrow>ks. if f e = c then h e else 0) = h e"
    using Cons.prems by (intro indicator_sum_distinct) auto
  have "(\<Sum>c\<leftarrow>ks. \<Sum>x\<leftarrow>filter (\<lambda>x. f x = c) (e # es). h x) =
        (\<Sum>c\<leftarrow>ks. (if f e = c then h e else 0) + (\<Sum>x\<leftarrow>filter (\<lambda>x. f x = c) es. h x))"
    by (intro arg_cong[where f = sum_list] map_cong) auto
  also have "\<dots> = (\<Sum>c\<leftarrow>ks. if f e = c then h e else 0) +
                   (\<Sum>c\<leftarrow>ks. \<Sum>x\<leftarrow>filter (\<lambda>x. f x = c) es. h x)"
    by (simp add: sum_list_addf)
  also have "\<dots> = h e + (\<Sum>x\<leftarrow>es. h x)"
    using Cons by (simp add: one)
  finally show ?case by simp
qed

lemma sum_counts_by_key:
  "distinct ks \<Longrightarrow> f ` set es \<subseteq> set ks \<Longrightarrow>
   (\<Sum>c\<leftarrow>ks. length (filter (\<lambda>e. f e = c) es)) = length es"
  using sum_by_key[of ks f es "\<lambda>e. 1::nat"] by (simp add: sum_list_triv)

subsection \<open>The order of the category totals\<close>




section \<open>Properties of the storage\<close>

subsection \<open>What a load keeps\<close>

lemma collect_Inr_set:
  "collect xs = Inr vs \<Longrightarrow> v \<in> set vs \<Longrightarrow> Inr v \<in> set xs"
  by (induction xs arbitrary: vs) (auto split: sum.splits)

lemma collect_map_Inr: "collect (map Inr vs) = Inr vs"
  by (induction vs) auto

lemma from_dict_category:
  "from_dict float_str now data = Inr e \<Longrightarrow>
   category e = get_default data ''Category'' (Str ''Uncategorized'')"
  by (auto simp: from_dict_def split: sum.splits)

lemma load_try_kept:
  assumes "load_try float_str now f = Inr es" and "e \<in> set es"
  shows "\<exists>r. keep_row r \<and> category e = cell r ''Category''"
proof -
  from assms(1) obtain df where df: "read_excel f = Inr df"
    and col: "''Category'' \<in> set (columns df)"
    and es: "collect (map (\<lambda>r. from_dict float_str now (series (columns df) r))
               (filter keep_row (rows df))) = Inr es"
    by (auto simp: load_try_def split: sum.splits if_splits)
  from collect_Inr_set[OF es assms(2)] obtain r where r: "keep_row r"
    and fd: "from_dict float_str now (series (columns df) r) = Inr e"
    by auto
  from from_dict_category[OF fd] col have "category e = cell r ''Category''"
    by (simp add: get_default_def series_def)
  with r show ?thesis by blast
qed

lemma load_expenses_cases:
  "load_expenses float_str now file_path fs = [] \<or>
   (\<exists>f. fs file_path = Some f \<and>
     load_try float_str now f = Inr (load_expenses float_str now file_path fs))"
  by (cases "fs file_path") (auto simp: load_expenses_def split: sum.splits)

lemma load_expenses_kept:
  assumes "e \<in> set (load_expenses float_str now file_path fs)"
  shows "category e \<noteq> Num NaN \<and> (\<forall>s. category e = Str s \<longrightarrow> upper s \<noteq> ''TOTAL'')"
proof -
  from assms load_expenses_cases[of float_str now file_path fs]
  obtain f where "load_try float_str now f = Inr (load_expenses float_str now file_path fs)"
    by auto
  from load_try_kept[OF this assms] obtain r
    where "keep_row r" "category e = cell r ''Category''"
    by blast
  then show ?thesis
    by (auto simp: keep_row_def)
qed

lemma upper_TOTAL: "upper ''TOTAL'' = ''TOTAL''"
  by code_simp

section \<open>The reserved label and the aggregates\<close>

lemma category_totals_categories:
  "ct_category ` set (calculate_category_totals es) = category ` set es"
  by (simp add: calculate_category_totals_eq image_image)

text \<open>
  Claim C7, as stated, fails: the analyzer has no filter. For the two records of the test
  of the storage filter, Food 10.0 and TOTAL 10.0, \<^verbatim>\<open>calculate_category_totals\<close> has an
  entry for \<^verbatim>\<open>TOTAL\<close>, and \<^verbatim>\<open>get_total_spending\<close> is 20.0 in every interpreter: the
  record labelled \<^verbatim>\<open>TOTAL\<close> is counted.
\<close>

theorem total_label_counterexample:
  "calculate_category_totals labelled_expenses =
     [CategoryTotal (Str ''Food'') (float_literal 10) 1,
      CategoryTotal (Str ''TOTAL'') (float_literal 10) 1]
   \<and> get_total_spending CPython_3_11 labelled_expenses = float_literal 20
   \<and> get_total_spending CPython_3_12 labelled_expenses = float_literal 20"
  by code_simp

text \<open>
  Claim C7, amended. \<^verbatim>\<open>calculate_category_totals\<close> has an entry for \<^verbatim>\<open>TOTAL\<close> exactly
  when a record of its input is labelled \<^verbatim>\<open>TOTAL\<close>. \<^verbatim>\<open>get_total_spending\<close> is the
  builtin \<^verbatim>\<open>sum\<close> of the amounts of all the records of its input, whatever their
  labels: it is the same when every record is labelled \<^verbatim>\<open>TOTAL\<close>. The label is excluded
  where the records are loaded: the totals of what \<^verbatim>\<open>load_expenses\<close> returns have no entry
  for \<^verbatim>\<open>TOTAL\<close>, whatever the backing file holds.
\<close>

theorem total_label_not_filtered:
  "(\<exists>ct\<in>set (calculate_category_totals expenses). ct_category ct = Str ''TOTAL'') =
     (\<exists>e\<in>set expenses. category e = Str ''TOTAL'')
   \<and> get_total_spending v expenses = builtin_sum v (map amount expenses)
   \<and> get_total_spending v (map (relabel (Str ''TOTAL'')) expenses) =
       get_total_spending v expenses
   \<and> list_all (\<lambda>ct. ct_category ct \<noteq> Str ''TOTAL'')
       (calculate_category_totals (load_expenses float_str now file_path fs))"
proof -
  have a: "(\<exists>ct\<in>set (calculate_category_totals expenses). ct_category ct = Str ''TOTAL'') =
     (\<exists>e\<in>set expenses. category e = Str ''TOTAL'')"
  proof -
    have "(\<exists>ct\<in>set (calculate_category_totals expenses). ct_category ct = Str ''TOTAL'') =
          (Str ''TOTAL'' \<in> ct_category ` set (calculate_category_totals expenses))"
      by (simp add: image_iff eq_commute)
    also have "\<dots> = (Str ''TOTAL'' \<in> category ` set expenses)"
      by (simp only: category_totals_categories)
    also have "\<dots> = (\<exists>e\<in>set expenses. category e = Str ''TOTAL'')"
      by (simp add: image_iff eq_commute)
    finally show ?thesis .
  qed
  have b: "get_total_spending v expenses = builtin_sum v (map amount expenses)"
    by (simp add: get_total_spending_def)
  have "map amount (map (relabel (Str ''TOTAL'')) expenses) = map amount expenses"
    by (simp add: relabel_def comp_def)
  then have b': "get_total_spending v (map (relabel (Str ''TOTAL'')) expenses) =
       get_total_spending v expenses"
    by (simp only: get_total_spending_def)
  have "ct_category ct \<noteq> Str ''TOTAL''"
    if "ct \<in> set (calculate_category_totals (load_expenses float_str now file_path fs))" for ct
  proof -
    from that have "ct_category ct \<in> category ` set (load_expenses float_str now file_path fs)"
      by (simp only: category_totals_categories[symmetric] imageI)
    then obtain x where x: "x \<in> set (load_expenses float_str now file_path fs)"
      and c: "ct_category ct = category x"
      by (rule imageE)
    from load_expenses_kept[OF x] upper_TOTAL have "category x \<noteq> Str ''TOTAL''"
      by blast
    with c show ?thesis by simp
  qed
  then have c: "list_all (\<lambda>ct. ct_category ct \<noteq> Str ''TOTAL'')
       (calculate_category_totals (load_expenses float_str now file_path fs))"
    by (simp add: list_all_iff)
  from a b b' c show ?thesis by blast
qed

section \<open>Conservation of the aggregates\<close>

lemma rounded_amounts:
  "map amount rounded_expenses =
     [Fin (3602879701896397 / 36028797018963968), Fin (3602879701896397 / 36028797018963968),
      Fin (3602879701896397 / 9007199254740992)]"
  by code_simp

lemma rounded_totals:
  "map ct_total (calculate_category_totals rounded_expenses) =
     [Fin (1 / 2), Fin (3602879701896397 / 36028797018963968)]"
  by code_simp

lemma rounded_totals_sum_3_11:
  "builtin_sum CPython_3_11 [Fin (1 / 2), Fin (3602879701896397 / 36028797018963968)] =
     Fin (5404319552844595 / 9007199254740992)"
  by code_simp

lemma rounded_totals_sum_3_12:
  "builtin_sum CPython_3_12 [Fin (1 / 2), Fin (3602879701896397 / 36028797018963968)] =
     Fin (5404319552844595 / 9007199254740992)"
  by code_simp

lemma rounded_amounts_sum_3_11:
  "builtin_sum CPython_3_11
     [Fin (3602879701896397 / 36028797018963968), Fin (3602879701896397 / 36028797018963968),
      Fin (3602879701896397 / 9007199254740992)] =
     Fin (5404319552844596 / 9007199254740992)"
  by code_simp

lemma rounded_amounts_sum_3_12:
  "builtin_sum CPython_3_12
     [Fin (3602879701896397 / 36028797018963968), Fin (3602879701896397 / 36028797018963968),
      Fin (3602879701896397 / 9007199254740992)] =
     Fin (5404319552844596 / 9007199254740992)"
  by code_simp

text \<open>
  Claim C10, as stated, fails: floats are added in another order. For the records Food
  0.1, Gas 0.1 and Food 0.4, the totals are Food 0.5 and Gas 0.1, whose sum is 0.6, and
  \<^verbatim>\<open>get_total_spending\<close> is 0.6000000000000001, with the \<^verbatim>\<open>sum\<close> of every interpreter.
\<close>

theorem category_totals_conservation_counterexample:
  "builtin_sum CPython_3_11 (map ct_total (calculate_category_totals rounded_expenses)) \<noteq>
     get_total_spending CPython_3_11 rounded_expenses
   \<and> builtin_sum CPython_3_12 (map ct_total (calculate_category_totals rounded_expenses)) \<noteq>
     get_total_spending CPython_3_12 rounded_expenses"
  unfolding get_total_spending_def rounded_amounts rounded_totals
    rounded_totals_sum_3_11 rounded_totals_sum_3_12
    rounded_amounts_sum_3_11 rounded_amounts_sum_3_12
  by code_simp

section \<open>Properties of \<^verbatim>\<open>parse_date\<close>\<close>

text \<open>
  Claim C3. For every text that contains \<^verbatim>\<open>yesterday\<close>, in any case of its letters,
  \<^verbatim>\<open>parse_date\<close> returns now minus one day, whatever else the text contains; for every
  text that does not but contains \<^verbatim>\<open>tomorrow\<close>, now plus one day; for the empty text,
  now. The result does not depend on the resolver, which is not consulted. (Now minus one
  day is \<open>plus_days now (- 1)\<close>, which exists unless now is the first day of year 1.)
\<close>

theorem parse_date_keywords:
  "(contains ''yesterday'' (lower text) \<and> plus_days now (- 1) = Inr d
      \<longrightarrow> parse_date dateparser_parse now text = d)
   \<and> (\<not> contains ''yesterday'' (lower text) \<and> contains ''tomorrow'' (lower text)
        \<and> plus_days now 1 = Inr d'
      \<longrightarrow> parse_date dateparser_parse now text = d')
   \<and> parse_date dateparser_parse now [] = now"
proof -
  have ne: "contains (c # cs) (lower text) \<Longrightarrow> text \<noteq> []" for c cs
    by (cases "text") (auto simp: lower_def)
  have a: "parse_date dateparser_parse now text = d"
    if "contains ''yesterday'' (lower text)" "plus_days now (- 1) = Inr d"
    using that ne[OF that(1)] by (simp add: parse_date_def parse_date_try_def)
  have b: "parse_date dateparser_parse now text = d'"
    if "\<not> contains ''yesterday'' (lower text)" "contains ''tomorrow'' (lower text)"
      "plus_days now 1 = Inr d'"
    using that ne[OF that(2)] by (simp add: parse_date_def parse_date_try_def)
  have c: "parse_date dateparser_parse now [] = now"
    by (simp add: parse_date_def)
  from a b c show ?thesis by blast
qed

text \<open>
  The theorem at two texts, with a resolver that would raise: a text with both keywords,
  where \<^verbatim>\<open>yesterday\<close> wins, and a text with \<^verbatim>\<open>tomorrow\<close> and \<^verbatim>\<open>last\<close>.
\<close>

theorem parse_date_keywords_witness:
  "contains ''yesterday'' (lower ''Paid YESTERDAY, due tomorrow'')
   \<and> plus_days now0 (- 1) = Inr (DateTime 2025 10 13 13 45 30 0)
   \<and> parse_date raising_parser now0 ''Paid YESTERDAY, due tomorrow'' = DateTime 2025 10 13 13 45 30 0
   \<and> \<not> contains ''yesterday'' (lower ''Rent is due Tomorrow, as last month'')
   \<and> contains ''tomorrow'' (lower ''Rent is due Tomorrow, as last month'')
   \<and> plus_days now0 1 = Inr (DateTime 2025 10 15 13 45 30 0)
   \<and> parse_date raising_parser now0 ''Rent is due Tomorrow, as last month'' = DateTime 2025 10 15 13 45 30 0"
proof -
  have y: "contains ''yesterday'' (lower ''Paid YESTERDAY, due tomorrow'')"
    by code_simp
  have py: "plus_days now0 (- 1) = Inr (DateTime 2025 10 13 13 45 30 0)"
    by code_simp
  have ny: "\<not> contains ''yesterday'' (lower ''Rent is due Tomorrow, as last month'')"
    by code_simp
  have t: "contains ''tomorrow'' (lower ''Rent is due Tomorrow, as last month'')"
    by code_simp
  have pt: "plus_days now0 1 = Inr (DateTime 2025 10 15 13 45 30 0)"
    by code_simp
  from parse_date_keywords[of "''Paid YESTERDAY, due tomorrow''" now0
      "DateTime 2025 10 13 13 45 30 0" raising_parser] y py
  have r1: "parse_date raising_parser now0 ''Paid YESTERDAY, due tomorrow''
              = DateTime 2025 10 13 13 45 30 0"
    by blast
  from parse_date_keywords[of "''Rent is due Tomorrow, as last month''" now0 _ raising_parser
      "DateTime 2025 10 15 13 45 30 0"] ny t pt
  have r2: "parse_date raising_parser now0 ''Rent is due Tomorrow, as last month''
              = DateTime 2025 10 15 13 45 30 0"
    by blast
  from y py r1 ny t pt r2 show ?thesis by blast
qed

text \<open>
  Claim C4, as stated, fails: where the resolver finds nothing with the preference for
  the past, \<^verbatim>\<open>parse_date\<close> goes on to the general call of the resolver, with no
  preference, and returns what that call finds.
\<close>

theorem parse_date_past_counterexample:
  "contains ''last'' (lower ''groceries last week'')
   \<and> \<not> contains ''yesterday'' (lower ''groceries last week'')
   \<and> \<not> contains ''tomorrow'' (lower ''groceries last week'')
   \<and> unbiased_only ''groceries last week''
        \<lparr>PREFER_DATES_FROM = Some Past, RELATIVE_BASE = now0\<rparr> = Inr None
   \<and> parse_date unbiased_only now0 ''groceries last week'' = DateTime 2025 10 7 0 0 0 0
   \<and> parse_date unbiased_only now0 ''groceries last week'' \<noteq> now0"
  by code_simp

text \<open>
  Claim C4, amended. For every text that contains \<^verbatim>\<open>last\<close> or \<^verbatim>\<open>ago\<close> and neither
  \<^verbatim>\<open>yesterday\<close> nor \<^verbatim>\<open>tomorrow\<close>: \<^verbatim>\<open>parse_date\<close> returns what the resolver finds with
  the preference for the past; where that call finds nothing, it calls the resolver once
  more, with no preference, and returns what this call finds, and today where it finds
  nothing either or raises; where the first call raises, it returns today.
\<close>

theorem parse_date_past_fallthrough:
  assumes "contains ''last'' (lower text) \<or> contains ''ago'' (lower text)"
    and "\<not> contains ''yesterday'' (lower text)" and "\<not> contains ''tomorrow'' (lower text)"
  shows "parse_date dateparser_parse now text =
     (case dateparser_parse text \<lparr>PREFER_DATES_FROM = Some Past, RELATIVE_BASE = now\<rparr> of
        Inl e \<Rightarrow> now
      | Inr (Some parsed) \<Rightarrow> parsed
      | Inr None \<Rightarrow>
          (case dateparser_parse text \<lparr>PREFER_DATES_FROM = None, RELATIVE_BASE = now\<rparr> of
             Inr (Some parsed) \<Rightarrow> parsed
           | Inr None \<Rightarrow> now
           | Inl e \<Rightarrow> now))"
proof -
  have "text \<noteq> []"
    using assms(1) by (cases "text") (auto simp: lower_def)
  with assms show ?thesis
    by (auto simp: parse_date_def parse_date_try_def split: sum.splits option.splits)
qed

theorem parse_date_past_fallthrough_witness:
  "(contains ''last'' (lower ''groceries last week'') \<or> contains ''ago'' (lower ''groceries last week''))
   \<and> \<not> contains ''yesterday'' (lower ''groceries last week'')
   \<and> \<not> contains ''tomorrow'' (lower ''groceries last week'')
   \<and> parse_date raising_parser now0 ''groceries last week'' = now0
   \<and> parse_date unbiased_only now0 ''groceries last week'' = DateTime 2025 10 7 0 0 0 0"
proof -
  have h1: "contains ''last'' (lower ''groceries last week'') \<or> contains ''ago'' (lower ''groceries last week'')"
    by code_simp
  have h2: "\<not> contains ''yesterday'' (lower ''groceries last week'')"
    by code_simp
  have h3: "\<not> contains ''tomorrow'' (lower ''groceries last week'')"
    by code_simp
  from parse_date_past_fallthrough[OF h1 h2 h3, of raising_parser now0]
  have r1: "parse_date raising_parser now0 ''groceries last week'' = now0"
    by (simp add: raising_parser_def)
  from parse_date_past_fallthrough[OF h1 h2 h3, of unbiased_only now0]
  have r2: "parse_date unbiased_only now0 ''groceries last week'' = DateTime 2025 10 7 0 0 0 0"
    by (simp add: unbiased_only_def)
  from h1 h2 h3 r1 r2 show ?thesis by blast
qed

end
